theory Spec2Isabelle
  imports Complex_Main "HOL-Library.Finite_Map"
begin

section \<open>Python values and the primitives the accumulator uses\<close>

text \<open>
  The reports handed to \<^verbatim>\<open>GpsResponse\<close> are JSON documents decoded by Python, so every
  field of a report, and every attribute copied from one, is a dynamically typed value.
  JSON numbers are the integers and the real numbers they denote (the only numeric
  operations of the source are comparisons, \<^verbatim>\<open>abs\<close> and \<^verbatim>\<open>max\<close>, all exact); the JSON
  extensions NaN and Infinity are outside this model. A \<open>char\<close> stands for one character
  of a Python string.
\<close>

datatype exn =
  NoFixError | UserWarning | KeyError | TypeError | IndexError | ValueError | AttributeError

datatype pyval =
  PNone
  | PBool bool
  | PInt int
  | PFloat real
  | PStr string
  | PList "pyval list"
  | PDict "(string, pyval) fmap"

text \<open>The number a value denotes: \<^verbatim>\<open>bool\<close> is a subclass of \<^verbatim>\<open>int\<close> in Python.\<close>

fun num_of :: "pyval \<Rightarrow> real option" where
  "num_of (PBool b) = Some (if b then 1 else 0)"
| "num_of (PInt i) = Some (of_int i)"
| "num_of (PFloat r) = Some r"
| "num_of _ = None"

text \<open>Truth value of an object, as \<^verbatim>\<open>not x\<close> and \<^verbatim>\<open>if x\<close> test it.\<close>

fun truthy :: "pyval \<Rightarrow> bool" where
  "truthy PNone = False"
| "truthy (PBool b) = b"
| "truthy (PInt i) = (i \<noteq> 0)"
| "truthy (PFloat r) = (r \<noteq> 0)"
| "truthy (PStr s) = (s \<noteq> [])"
| "truthy (PList xs) = (xs \<noteq> [])"
| "truthy (PDict d) = (d \<noteq> fmempty)"

text \<open>\<^verbatim>\<open>x[k]\<close> with a string key: only a dict can be subscripted by a string.\<close>

fun py_getitem :: "pyval \<Rightarrow> string \<Rightarrow> exn + pyval" where
  "py_getitem (PDict d) k = (case fmlookup d k of None \<Rightarrow> Inl KeyError | Some v \<Rightarrow> Inr v)"
| "py_getitem _ k = Inl TypeError"

text \<open>\<^verbatim>\<open>x[-1]\<close>: the last element of a sequence; a JSON dict has string keys only.\<close>

fun py_last :: "pyval \<Rightarrow> exn + pyval" where
  "py_last (PList xs) = (if xs = [] then Inl IndexError else Inr (last xs))"
| "py_last (PStr s) = (if s = [] then Inl IndexError else Inr (PStr [last s]))"
| "py_last (PDict d) = Inl KeyError"
| "py_last _ = Inl TypeError"

text \<open>Whether \<open>xs\<close> occurs in \<open>ys\<close> as a contiguous run (\<^verbatim>\<open>xs in ys\<close> on strings).\<close>

fun is_prefix :: "'a list \<Rightarrow> 'a list \<Rightarrow> bool" where
  "is_prefix [] ys = True"
| "is_prefix (x # xs) [] = False"
| "is_prefix (x # xs) (y # ys) = (x = y \<and> is_prefix xs ys)"

fun substring :: "'a list \<Rightarrow> 'a list \<Rightarrow> bool" where
  "substring xs [] = (xs = [])"
| "substring xs (y # ys) = (is_prefix xs (y # ys) \<or> substring xs ys)"

text \<open>\<^verbatim>\<open>k in x\<close> for a string \<open>k\<close>: key of a dict, element of a list, substring of a string.\<close>

fun py_in :: "string \<Rightarrow> pyval \<Rightarrow> exn + bool" where
  "py_in k (PDict d) = Inr (fmlookup d k \<noteq> None)"
| "py_in k (PList xs) = Inr (PStr k \<in> set xs)"
| "py_in k (PStr s) = Inr (substring k s)"
| "py_in k _ = Inl TypeError"

text \<open>\<^verbatim>\<open>len(x)\<close>.\<close>

fun py_len :: "pyval \<Rightarrow> exn + int" where
  "py_len (PList xs) = Inr (int (length xs))"
| "py_len (PStr s) = Inr (int (length s))"
| "py_len (PDict d) = Inr (int (fcard (fmdom d)))"
| "py_len _ = Inl TypeError"

text \<open>
  \<^verbatim>\<open>x == True\<close> is equality with the number one. In the list comprehension
  \<^verbatim>\<open>[sat for sat in x if sat['used'] == True]\<close> the entries are visited in order and
  the first one that cannot be subscripted, or has no \<^verbatim>\<open>used\<close> key, raises. A string yields its characters and a dict its keys, all strings, which
  cannot be subscripted by \<^verbatim>\<open>'used'\<close>.
\<close>

definition py_eq_True :: "pyval \<Rightarrow> bool" where
  "py_eq_True x = (num_of x = Some 1)"

fun used_list :: "pyval list \<Rightarrow> exn + pyval list" where
  "used_list [] = Inr []"
| "used_list (sat # rest) =
     (case py_getitem sat ''used'' of
        Inl e \<Rightarrow> Inl e
      | Inr u \<Rightarrow>
          (case used_list rest of
             Inl e \<Rightarrow> Inl e
           | Inr ys \<Rightarrow> Inr (if py_eq_True u then sat # ys else ys)))"

fun used_entries :: "pyval \<Rightarrow> exn + pyval list" where
  "used_entries (PList xs) = used_list xs"
| "used_entries (PStr s) = (if s = [] then Inr [] else Inl TypeError)"
| "used_entries (PDict d) = (if d = fmempty then Inr [] else Inl TypeError)"
| "used_entries _ = Inl TypeError"

text \<open>\<^verbatim>\<open>x < n\<close> and \<^verbatim>\<open>x >= n\<close> against an integer literal.\<close>

definition py_lt_int :: "pyval \<Rightarrow> int \<Rightarrow> exn + bool" where
  "py_lt_int x n = (case num_of x of None \<Rightarrow> Inl TypeError | Some r \<Rightarrow> Inr (r < of_int n))"

definition py_ge_int :: "pyval \<Rightarrow> int \<Rightarrow> exn + bool" where
  "py_ge_int x n = (case num_of x of None \<Rightarrow> Inl TypeError | Some r \<Rightarrow> Inr (of_int n \<le> r))"

text \<open>\<^verbatim>\<open>abs(x)\<close>.\<close>

fun py_abs :: "pyval \<Rightarrow> exn + pyval" where
  "py_abs (PBool b) = Inr (PInt (if b then 1 else 0))"
| "py_abs (PInt i) = Inr (PInt \<bar>i\<bar>)"
| "py_abs (PFloat r) = Inr (PFloat \<bar>r\<bar>)"
| "py_abs _ = Inl TypeError"

text \<open>
  \<^verbatim>\<open>a == b\<close> compares numbers by value whatever their type, and sequences and dicts
  element by element: two values are equal when their normal forms are.
\<close>

primrec norm :: "pyval \<Rightarrow> pyval" where
  "norm PNone = PNone"
| "norm (PBool b) = PFloat (if b then 1 else 0)"
| "norm (PInt i) = PFloat (of_int i)"
| "norm (PFloat r) = PFloat r"
| "norm (PStr s) = PStr s"
| "norm (PList xs) = PList (map norm xs)"
| "norm (PDict d) = PDict (fmmap norm d)"

definition py_eq :: "pyval \<Rightarrow> pyval \<Rightarrow> bool" where
  "py_eq a b = (norm a = norm b)"

text \<open>
  \<^verbatim>\<open>a < b\<close>: numbers by value, strings and lists lexicographically (a list comparison
  looks for the first pair of unequal elements and compares those); any other pair of
  types is not ordered.
\<close>

fun str_lt :: "string \<Rightarrow> string \<Rightarrow> bool" where
  "str_lt [] [] = False"
| "str_lt [] (d # ds) = True"
| "str_lt (c # cs) [] = False"
| "str_lt (c # cs) (d # ds) =
     ((of_char c :: nat) < of_char d \<or> (c = d \<and> str_lt cs ds))"

fun py_lt :: "pyval \<Rightarrow> pyval \<Rightarrow> exn + bool"
  and list_lt :: "pyval list \<Rightarrow> pyval list \<Rightarrow> exn + bool" where
  "py_lt (PStr s) (PStr t) = Inr (str_lt s t)"
| "py_lt (PList xs) (PList ys) = list_lt xs ys"
| "py_lt a b =
     (case num_of a of
        None \<Rightarrow> Inl TypeError
      | Some x \<Rightarrow> (case num_of b of None \<Rightarrow> Inl TypeError | Some y \<Rightarrow> Inr (x < y)))"
| "list_lt [] [] = Inr False"
| "list_lt [] (y # ys) = Inr True"
| "list_lt (x # xs) [] = Inr False"
| "list_lt (x # xs) (y # ys) = (if py_eq x y then list_lt xs ys else py_lt x y)"

text \<open>\<^verbatim>\<open>max(a, b)\<close> keeps \<open>a\<close> unless \<^verbatim>\<open>b > a\<close>.\<close>

definition py_max :: "pyval \<Rightarrow> pyval \<Rightarrow> exn + pyval" where
  "py_max a b = (case py_lt a b of Inl e \<Rightarrow> Inl e | Inr t \<Rightarrow> Inr (if t then b else a))"

text \<open>\<^verbatim>\<open>d[k] if k in d else dflt\<close> on a dict.\<close>

definition get_or :: "(string, pyval) fmap \<Rightarrow> string \<Rightarrow> pyval \<Rightarrow> pyval" where
  "get_or d k dflt = (case fmlookup d k of None \<Rightarrow> dflt | Some v \<Rightarrow> v)"

section \<open>The fix state: class \<^verbatim>\<open>GpsResponse\<close>\<close>

record GpsResponse =
  mode :: pyval
  sats :: int
  sats_valid :: int
  lon :: pyval
  lat :: pyval
  alt :: pyval
  track :: pyval
  hspeed :: pyval
  climb :: pyval
  time :: pyval
  error :: "(string, pyval) fmap"
  heading :: pyval
  pitch :: pyval
  roll :: pyval

text \<open>\<^verbatim>\<open>__init__\<close>: the empty fix.\<close>

definition init :: GpsResponse where
  "init = \<lparr> mode = PInt 0, sats = 0, sats_valid = 0,
            lon = PFloat 0, lat = PFloat 0, alt = PFloat 0,
            track = PInt 0, hspeed = PInt 0, climb = PInt 0,
            time = PStr [], error = fmempty,
            heading = PFloat 0, pitch = PFloat 0, roll = PFloat 0 \<rparr>"

text \<open>
  A method that mutates the object returns the exception it raised, if any, and the
  object as it is when the method returns or raises: an assignment made before a raise
  stays made.
\<close>

type_synonym outcome = "exn option \<times> GpsResponse"

text \<open>
  \<^verbatim>\<open>parse_tpv\<close>. The subscript \<^verbatim>\<open>last_tpv['mode']\<close> comes first, so the report is a
  dict with that key wherever the rest of the body runs.
\<close>

fun parse_tpv :: "pyval \<Rightarrow> GpsResponse \<Rightarrow> outcome" where
  "parse_tpv (PDict d) self =
     (case fmlookup d ''mode'' of
        None \<Rightarrow> (Some KeyError, self)
      | Some m \<Rightarrow>
          (let self1 = self\<lparr>mode := m\<rparr> in
           case py_ge_int m 2 of
             Inl e \<Rightarrow> (Some e, self1)
           | Inr ge2 \<Rightarrow>
               (let self2 =
                  (if ge2 then
                     self1\<lparr>lon := get_or d ''lon'' (PFloat 0),
                           lat := get_or d ''lat'' (PFloat 0),
                           track := get_or d ''track'' (PInt 0),
                           hspeed := get_or d ''speed'' (PInt 0),
                           time := get_or d ''time'' (PStr []),
                           error := fmap_of_list
                             [(''c'', PInt 0),
                              (''s'', get_or d ''eps'' (PInt 0)),
                              (''t'', get_or d ''ept'' (PInt 0)),
                              (''v'', PInt 0),
                              (''x'', get_or d ''epx'' (PInt 0)),
                              (''y'', get_or d ''epy'' (PInt 0))]\<rparr>
                   else self1) in
                case py_ge_int m 3 of
                  Inl e \<Rightarrow> (Some e, self2)
                | Inr ge3 \<Rightarrow>
                    (None,
                     if ge3 then
                       self2\<lparr>alt := get_or d ''alt'' (PFloat 0),
                             climb := get_or d ''climb'' (PInt 0),
                             error := fmupd ''v'' (get_or d ''epv'' (PInt 0))
                                        (fmupd ''c'' (get_or d ''epc'' (PInt 0)) (error self2))\<rparr>
                     else self2))))"
| "parse_tpv _ self = (Some TypeError, self)"

text \<open>
  \<^verbatim>\<open>parse_sky\<close>. \<^verbatim>\<open>self.sats\<close> is assigned before the comprehension runs, so a raise
  inside the comprehension leaves the new \<^verbatim>\<open>sats\<close> beside the old \<^verbatim>\<open>sats_valid\<close>.
\<close>

definition parse_sky :: "pyval \<Rightarrow> GpsResponse \<Rightarrow> outcome" where
  "parse_sky last_sky self =
     (case py_in ''satellites'' last_sky of
        Inl e \<Rightarrow> (Some e, self)
      | Inr False \<Rightarrow> (None, self\<lparr>sats := 0, sats_valid := 0\<rparr>)
      | Inr True \<Rightarrow>
          (case py_getitem last_sky ''satellites'' of
             Inl e \<Rightarrow> (Some e, self)
           | Inr satellites \<Rightarrow>
               (case py_len satellites of
                  Inl e \<Rightarrow> (Some e, self)
                | Inr n \<Rightarrow>
                    (let self1 = self\<lparr>sats := n\<rparr> in
                     case used_entries satellites of
                       Inl e \<Rightarrow> (Some e, self1)
                     | Inr used \<Rightarrow> (None, self1\<lparr>sats_valid := int (length used)\<rparr>)))))"

text \<open>\<^verbatim>\<open>x[k] if k in x else dflt\<close> on any value.\<close>

definition get_default :: "pyval \<Rightarrow> string \<Rightarrow> pyval \<Rightarrow> exn + pyval" where
  "get_default x k dflt =
     (case py_in k x of
        Inl e \<Rightarrow> Inl e
      | Inr True \<Rightarrow> py_getitem x k
      | Inr False \<Rightarrow> Inr dflt)"

text \<open>\<^verbatim>\<open>parse_att\<close>: three assignments, one after the other.\<close>

definition parse_att :: "pyval \<Rightarrow> GpsResponse \<Rightarrow> outcome" where
  "parse_att last_att self =
     (case get_default last_att ''heading'' (PFloat 0) of
        Inl e \<Rightarrow> (Some e, self)
      | Inr h \<Rightarrow>
          (let self1 = self\<lparr>heading := h\<rparr> in
           case get_default last_att ''pitch'' (PFloat 0) of
             Inl e \<Rightarrow> (Some e, self1)
           | Inr p \<Rightarrow>
               (let self2 = self1\<lparr>pitch := p\<rparr> in
                case get_default last_att ''roll'' (PFloat 0) of
                  Inl e \<Rightarrow> (Some e, self2)
                | Inr r \<Rightarrow> (None, self2\<lparr>roll := r\<rparr>))))"

text \<open>
  \<^verbatim>\<open>parse_poll\<close>: \<^verbatim>\<open>UserWarning\<close> when \<^verbatim>\<open>packet['active']\<close> is false, else the last
  \<^verbatim>\<open>tpv\<close> entry and then the last \<^verbatim>\<open>sky\<close> entry; \<^verbatim>\<open>packet['sky'][-1]\<close> is only
  evaluated once \<^verbatim>\<open>parse_tpv\<close> has returned.
\<close>

definition parse_poll :: "pyval \<Rightarrow> GpsResponse \<Rightarrow> outcome" where
  "parse_poll packet self =
     (case py_getitem packet ''active'' of
        Inl e \<Rightarrow> (Some e, self)
      | Inr active \<Rightarrow>
          if \<not> truthy active then (Some UserWarning, self)
          else
            (case py_getitem packet ''tpv'' of
               Inl e \<Rightarrow> (Some e, self)
             | Inr tpvs \<Rightarrow>
                 (case py_last tpvs of
                    Inl e \<Rightarrow> (Some e, self)
                  | Inr last_tpv \<Rightarrow>
                      (case parse_tpv last_tpv self of
                         (Some e, self1) \<Rightarrow> (Some e, self1)
                       | (None, self1) \<Rightarrow>
                           (case py_getitem packet ''sky'' of
                              Inl e \<Rightarrow> (Some e, self1)
                            | Inr skys \<Rightarrow>
                                (case py_last skys of
                                   Inl e \<Rightarrow> (Some e, self1)
                                 | Inr last_sky \<Rightarrow> parse_sky last_sky self1))))))"

text \<open>\<^verbatim>\<open>parse_packet\<close>: dispatch on \<^verbatim>\<open>packet['class']\<close>; any other class falls through.\<close>

definition parse_packet :: "pyval \<Rightarrow> GpsResponse \<Rightarrow> outcome" where
  "parse_packet packet self =
     (case py_getitem packet ''class'' of
        Inl e \<Rightarrow> (Some e, self)
      | Inr c \<Rightarrow>
          if c = PStr ''POLL'' then parse_poll packet self
          else if c = PStr ''TPV'' then parse_tpv packet self
          else if c = PStr ''SKY'' then parse_sky packet self
          else if c = PStr ''ATT'' then parse_att packet self
          else (None, self))"

section \<open>The accessors\<close>

text \<open>
  Each accessor starts with \<^verbatim>\<open>if self.mode < n: raise NoFixError\<close>; the comparison
  itself raises \<^verbatim>\<open>TypeError\<close> when \<^verbatim>\<open>self.mode\<close> is not a number.
\<close>

definition needs_fix :: "int \<Rightarrow> GpsResponse \<Rightarrow> exn option" where
  "needs_fix n self =
     (case py_lt_int (mode self) n of
        Inl e \<Rightarrow> Some e
      | Inr below \<Rightarrow> if below then Some NoFixError else None)"

definition position :: "GpsResponse \<Rightarrow> exn + pyval \<times> pyval" where
  "position self =
     (case needs_fix 2 self of Some e \<Rightarrow> Inl e | None \<Rightarrow> Inr (lat self, lon self))"

definition altitude :: "GpsResponse \<Rightarrow> exn + pyval" where
  "altitude self =
     (case needs_fix 3 self of Some e \<Rightarrow> Inl e | None \<Rightarrow> Inr (alt self))"

definition movement :: "GpsResponse \<Rightarrow> exn + pyval" where
  "movement self =
     (case needs_fix 3 self of
        Some e \<Rightarrow> Inl e
      | None \<Rightarrow>
          Inr (PDict (fmap_of_list
            [(''speed'', hspeed self), (''track'', track self), (''climb'', climb self)])))"

text \<open>
  \<^verbatim>\<open>abs(self.climb) < self.error['c']\<close>: the left operand, then the lookup, then the
  comparison.
\<close>

definition speed_vertical :: "GpsResponse \<Rightarrow> exn + pyval" where
  "speed_vertical self =
     (case needs_fix 2 self of
        Some e \<Rightarrow> Inl e
      | None \<Rightarrow>
          (case py_abs (climb self) of
             Inl e \<Rightarrow> Inl e
           | Inr a \<Rightarrow>
               (case fmlookup (error self) ''c'' of
                  None \<Rightarrow> Inl KeyError
                | Some c \<Rightarrow>
                    (case py_lt a c of
                       Inl e \<Rightarrow> Inl e
                     | Inr small \<Rightarrow> Inr (if small then PInt 0 else climb self)))))"

definition speed :: "GpsResponse \<Rightarrow> exn + pyval" where
  "speed self =
     (case needs_fix 2 self of
        Some e \<Rightarrow> Inl e
      | None \<Rightarrow>
          (case fmlookup (error self) ''s'' of
             None \<Rightarrow> Inl KeyError
           | Some s \<Rightarrow>
               (case py_lt (hspeed self) s of
                  Inl e \<Rightarrow> Inl e
                | Inr small \<Rightarrow> Inr (if small then PInt 0 else hspeed self))))"

definition position_precision :: "GpsResponse \<Rightarrow> exn + pyval \<times> pyval" where
  "position_precision self =
     (case needs_fix 2 self of
        Some e \<Rightarrow> Inl e
      | None \<Rightarrow>
          (case fmlookup (error self) ''x'' of
             None \<Rightarrow> Inl KeyError
           | Some x \<Rightarrow>
               (case fmlookup (error self) ''y'' of
                  None \<Rightarrow> Inl KeyError
                | Some y \<Rightarrow>
                    (case py_max x y of
                       Inl e \<Rightarrow> Inl e
                     | Inr h \<Rightarrow>
                         (case fmlookup (error self) ''v'' of
                            None \<Rightarrow> Inl KeyError
                          | Some v \<Rightarrow> Inr (h, v))))))"

text \<open>
  \<^verbatim>\<open>get_time\<close>. The clock and the parser are parameters: \<open>now_iso\<close> is the string
  \<^verbatim>\<open>datetime.datetime.now().isoformat()\<close> and \<open>strptime s\<close> is the datetime that
  \<^verbatim>\<open>strptime(s, gpsTimeFormat)\<close> returns, or \<open>None\<close> where it raises \<^verbatim>\<open>ValueError\<close>.
  In the last statement \<^verbatim>\<open>time\<close> is the module imported at the top of the file, not
  \<^verbatim>\<open>rval\<close> or \<^verbatim>\<open>self.time\<close>, and that module has no attribute \<^verbatim>\<open>replace\<close>.
\<close>

datatype 'dt timeval = NowIso string | Parsed 'dt

definition get_time ::
  "(string \<Rightarrow> 'dt option) \<Rightarrow> string \<Rightarrow> bool \<Rightarrow> GpsResponse \<Rightarrow> exn + 'dt timeval" where
  "get_time strptime now_iso local_time self =
     (case needs_fix 2 self of
        Some e \<Rightarrow> Inl e
      | None \<Rightarrow>
          (case (if time self = PStr [] \<or> time self = PNone then Inr (NowIso now_iso)
                 else (case time self of
                         PStr s \<Rightarrow>
                           (case strptime s of None \<Rightarrow> Inl ValueError | Some d \<Rightarrow> Inr (Parsed d))
                       | _ \<Rightarrow> Inl TypeError)) of
             Inl e \<Rightarrow> Inl e
           | Inr rval \<Rightarrow> if local_time then Inl AttributeError else Inr rval))"

section \<open>Ingestion\<close>

text \<open>
  The reader thread of \<^verbatim>\<open>ThreadedClient\<close> hands every report of the stream to
  \<^verbatim>\<open>parse_packet\<close> on the one \<^verbatim>\<open>GpsResponse\<close> it owns. \<open>ingest\<close> is the object after
  a sequence of such calls, whatever each call returned or raised: it covers the thread,
  which stops at the first exception that is not a lost connection, and a caller that
  catches the exception and goes on.
\<close>

fun ingest :: "pyval list \<Rightarrow> GpsResponse \<Rightarrow> GpsResponse" where
  "ingest [] self = self"
| "ingest (p # ps) self = ingest ps (snd (parse_packet p self))"

section \<open>Vocabulary of the properties\<close>

text \<open>Running one mutation after another: a raise in the first skips the second.\<close>

definition and_then :: "outcome \<Rightarrow> (GpsResponse \<Rightarrow> outcome) \<Rightarrow> outcome" where
  "and_then r f = (case r of (Some e, s) \<Rightarrow> (Some e, s) | (None, s) \<Rightarrow> f s)"

text \<open>A satellite entry carries the \<^verbatim>\<open>used\<close> flag; the flag says used.\<close>

definition carries_used :: "pyval \<Rightarrow> bool" where
  "carries_used sat = (case py_getitem sat ''used'' of Inl e \<Rightarrow> False | Inr u \<Rightarrow> True)"

definition flagged_used :: "pyval \<Rightarrow> bool" where
  "flagged_used sat = (case py_getitem sat ''used'' of Inl e \<Rightarrow> False | Inr u \<Rightarrow> py_eq_True u)"

text \<open>
  Every satellite entry of a satellite-visibility report carries the flag. The entries
  are what the comprehension of \<^verbatim>\<open>parse_sky\<close> visits: the elements of a list, the
  characters of a string, the keys of a dict.
\<close>

fun entries_flagged :: "pyval \<Rightarrow> bool" where
  "entries_flagged (PList xs) = list_all carries_used xs"
| "entries_flagged (PStr s) = (s = [])"
| "entries_flagged (PDict d) = (d = fmempty)"
| "entries_flagged _ = True"

definition sky_flagged :: "pyval \<Rightarrow> bool" where
  "sky_flagged last_sky =
     (case py_getitem last_sky ''satellites'' of
        Inl e \<Rightarrow> True
      | Inr satellites \<Rightarrow> entries_flagged satellites)"

text \<open>
  The same for a report of any kind: a \<^verbatim>\<open>SKY\<close> report itself, and every
  satellite-visibility report bundled in a \<^verbatim>\<open>POLL\<close>.
\<close>

definition report_flagged :: "pyval \<Rightarrow> bool" where
  "report_flagged packet =
     (case py_getitem packet ''class'' of
        Inl e \<Rightarrow> True
      | Inr c \<Rightarrow>
          if c = PStr ''SKY'' then sky_flagged packet
          else if c = PStr ''POLL'' then
            (case py_getitem packet ''sky'' of
               Inr (PList skys) \<Rightarrow> list_all sky_flagged skys
             | _ \<Rightarrow> True)
          else True)"

text \<open>The six error margins are all there.\<close>

definition has_margins :: "GpsResponse \<Rightarrow> bool" where
  "has_margins self =
     list_all (\<lambda>k. fmlookup (error self) k \<noteq> None) [''c'', ''s'', ''t'', ''v'', ''x'', ''y'']"

text \<open>A fix of at least 2D quality comes with its margins.\<close>

definition margins_inv :: "GpsResponse \<Rightarrow> bool" where
  "margins_inv self = (py_ge_int (mode self) 2 = Inr True \<longrightarrow> has_margins self)"

subsection \<open>Sample reports\<close>

definition tpv_3d :: "(string, pyval) fmap" where
  "tpv_3d = fmap_of_list
     [(''class'', PStr ''TPV''), (''mode'', PInt 3),
      (''lat'', PFloat (525 / 10)), (''lon'', PFloat (134 / 10)), (''alt'', PFloat 100),
      (''climb'', PFloat (5 / 100)), (''epc'', PFloat (1 / 10)), (''epv'', PFloat 5),
      (''time'', PStr ''2021-03-04T05:06:07.000Z'')]"

definition tpv_3d_climbing :: "(string, pyval) fmap" where
  "tpv_3d_climbing = fmap_of_list
     [(''class'', PStr ''TPV''), (''mode'', PInt 3),
      (''climb'', PFloat (5 / 10)), (''epc'', PFloat (1 / 10))]"

definition tpv_2d :: "(string, pyval) fmap" where
  "tpv_2d = fmap_of_list
     [(''class'', PStr ''TPV''), (''mode'', PInt 2),
      (''lat'', PFloat (525 / 10)), (''lon'', PFloat (134 / 10))]"

definition tpv_no_fix :: "(string, pyval) fmap" where
  "tpv_no_fix = fmap_of_list [(''class'', PStr ''TPV''), (''mode'', PInt 1)]"

definition sat :: "int \<Rightarrow> bool \<Rightarrow> pyval" where
  "sat prn u = PDict (fmap_of_list [(''PRN'', PInt prn), (''used'', PBool u)])"

definition sky_8_5 :: "(string, pyval) fmap" where
  "sky_8_5 = fmap_of_list
     [(''class'', PStr ''SKY''),
      (''satellites'', PList
         [sat 1 True, sat 2 False, sat 3 True, sat 4 True,
          sat 5 False, sat 6 True, sat 7 False, sat 8 True])]"

definition sky_empty :: "(string, pyval) fmap" where
  "sky_empty = fmap_of_list [(''class'', PStr ''SKY'')]"

definition sky_unflagged :: "(string, pyval) fmap" where
  "sky_unflagged = fmap_of_list
     [(''class'', PStr ''SKY''),
      (''satellites'', PList [PDict (fmap_of_list [(''PRN'', PInt 1)])])]"

definition poll_bundle :: "pyval \<Rightarrow> (string, pyval) fmap" where
  "poll_bundle active = fmap_of_list
     [(''class'', PStr ''POLL''), (''active'', active),
      (''tpv'', PList [PDict tpv_no_fix, PDict tpv_3d]),
      (''sky'', PList [PDict sky_empty, PDict sky_8_5])]"

definition log_report :: "(string, pyval) fmap" where
  "log_report = fmap_of_list [(''class'', PStr ''VERSION''), (''mode'', PStr ''x'')]"

definition classless_report :: "(string, pyval) fmap" where
  "classless_report = fmap_of_list [(''mode'', PInt 3), (''lat'', PFloat (525 / 10))]"


section \<open>Which exceptions a primitive can raise\<close>

lemma py_ge_int_num: "num_of m = Some r \<Longrightarrow> py_ge_int m n = Inr (of_int n \<le> r)"
  by (simp add: py_ge_int_def)

lemma py_lt_int_num: "num_of m = Some r \<Longrightarrow> py_lt_int m n = Inr (r < of_int n)"
  by (simp add: py_lt_int_def)

lemma py_ge_int_exn: "py_ge_int m n = Inl e \<Longrightarrow> e = TypeError"
  by (auto simp: py_ge_int_def split: option.splits)

lemma py_ge_int_3_2: "py_ge_int m 3 = Inr True \<Longrightarrow> py_ge_int m 2 = Inr True"
  by (auto simp: py_ge_int_def split: option.splits)

lemma py_ge_int_total: "py_ge_int m 2 = Inr b \<Longrightarrow> \<exists>b'. py_ge_int m 3 = Inr b'"
  by (auto simp: py_ge_int_def split: option.splits)

lemma py_ge_lt_int: "py_ge_int m n = Inr True \<longleftrightarrow> py_lt_int m n = Inr False"
  by (auto simp: py_ge_int_def py_lt_int_def split: option.splits)

lemma py_getitem_exn: "py_getitem x k = Inl e \<Longrightarrow> e \<in> {KeyError, TypeError}"
  by (cases x) (auto split: option.splits)

lemma py_last_exn: "py_last x = Inl e \<Longrightarrow> e \<in> {IndexError, KeyError, TypeError}"
  by (cases x) (auto split: if_splits)

lemma py_in_exn: "py_in k x = Inl e \<Longrightarrow> e = TypeError"
  by (cases x) auto

lemma py_len_exn: "py_len x = Inl e \<Longrightarrow> e = TypeError"
  by (cases x) auto

lemma used_list_exn: "used_list xs = Inl e \<Longrightarrow> e \<in> {KeyError, TypeError}"
  by (induction xs arbitrary: e) (auto dest: py_getitem_exn split: sum.splits)

lemma used_entries_exn: "used_entries x = Inl e \<Longrightarrow> e \<in> {KeyError, TypeError}"
  by (cases x) (auto dest: used_list_exn split: if_splits)

lemma py_abs_exn: "py_abs x = Inl e \<Longrightarrow> e = TypeError"
  by (cases x) auto

lemma py_lt_exn:
  "py_lt a b = Inl e \<Longrightarrow> e = TypeError"
  "list_lt xs ys = Inl e \<Longrightarrow> e = TypeError"
  by (induction a b and xs ys rule: py_lt_list_lt.induct)
     (auto split: option.splits if_splits)

lemma py_max_exn: "py_max a b = Inl e \<Longrightarrow> e = TypeError"
  by (auto simp: py_max_def dest: py_lt_exn split: sum.splits)

lemma py_lt_num: "num_of a = Some x \<Longrightarrow> num_of b = Some y \<Longrightarrow> py_lt a b = Inr (x < y)"
  by (cases a; cases b) auto

lemma py_abs_num: "num_of a = Some x \<Longrightarrow> \<exists>b. py_abs a = Inr b \<and> num_of b = Some \<bar>x\<bar>"
  by (cases a) auto

section \<open>What each merge changes\<close>

lemma parse_tpv_exn: "fst (parse_tpv p self) = Some e \<Longrightarrow> e \<in> {KeyError, TypeError}"
  by (cases p) (auto simp: Let_def dest: py_ge_int_exn split: option.splits sum.splits)

lemma parse_tpv_counters:
  "sats (snd (parse_tpv p self)) = sats self"
  "sats_valid (snd (parse_tpv p self)) = sats_valid self"
  by (cases p; auto simp: Let_def split: option.splits sum.splits)+

lemma parse_tpv_error_changed:
  "error (snd (parse_tpv p self)) \<noteq> error self \<Longrightarrow>
     \<exists>d m. p = PDict d \<and> fmlookup d ''mode'' = Some m \<and> py_ge_int m 2 = Inr True"
  by (cases p) (auto simp: Let_def dest: py_ge_int_3_2 split: option.splits sum.splits if_splits)

lemma parse_tpv_mode:
  "fmlookup d ''mode'' = Some m \<Longrightarrow> mode (snd (parse_tpv (PDict d) self)) = m"
  by (auto simp: Let_def split: sum.splits)

lemma parse_tpv_mode_unchanged:
  "mode (snd (parse_tpv p self)) \<noteq> mode self \<Longrightarrow>
     \<exists>d. p = PDict d \<and> fmlookup d ''mode'' = Some (mode (snd (parse_tpv p self)))"
  by (cases p) (auto simp: Let_def split: option.splits sum.splits if_splits)

lemma parse_tpv_margins_2d:
  assumes "fmlookup d ''mode'' = Some m" "py_ge_int m 2 = Inr True"
  shows "fmlookup (error (snd (parse_tpv (PDict d) self))) ''s'' = Some (get_or d ''eps'' (PInt 0))"
    and "fmlookup (error (snd (parse_tpv (PDict d) self))) ''t'' = Some (get_or d ''ept'' (PInt 0))"
    and "fmlookup (error (snd (parse_tpv (PDict d) self))) ''x'' = Some (get_or d ''epx'' (PInt 0))"
    and "fmlookup (error (snd (parse_tpv (PDict d) self))) ''y'' = Some (get_or d ''epy'' (PInt 0))"
    and "fmlookup (error (snd (parse_tpv (PDict d) self))) ''c'' =
           Some (if py_ge_int m 3 = Inr True then get_or d ''epc'' (PInt 0) else PInt 0)"
    and "fmlookup (error (snd (parse_tpv (PDict d) self))) ''v'' =
           Some (if py_ge_int m 3 = Inr True then get_or d ''epv'' (PInt 0) else PInt 0)"
  using assms py_ge_int_total[OF assms(2)]
  by (auto simp: Let_def split: option.splits sum.splits if_splits)

lemma parse_tpv_3d:
  assumes "fmlookup d ''mode'' = Some m" "num_of m = Some r" "3 \<le> r"
  shows "fst (parse_tpv (PDict d) self) = None"
    and "alt (snd (parse_tpv (PDict d) self)) = get_or d ''alt'' (PFloat 0)"
    and "climb (snd (parse_tpv (PDict d) self)) = get_or d ''climb'' (PInt 0)"
    and "fmlookup (error (snd (parse_tpv (PDict d) self))) ''c'' = Some (get_or d ''epc'' (PInt 0))"
  using assms by (simp_all add: py_ge_int_num Let_def)

lemma parse_tpv_below_2d:
  assumes "fmlookup d ''mode'' = Some m" "num_of m = Some r" "r < 2"
  shows "parse_tpv (PDict d) self = (None, self\<lparr>mode := m\<rparr>)"
  using assms by (simp add: py_ge_int_num Let_def)

lemma parse_tpv_has_margins:
  assumes "py_ge_int (mode self) 2 = Inr True \<longrightarrow> has_margins self"
  shows "py_ge_int (mode (snd (parse_tpv p self))) 2 = Inr True \<longrightarrow>
           has_margins (snd (parse_tpv p self))"
  using assms
  by (cases p) (auto simp: Let_def has_margins_def split: option.splits sum.splits if_splits)

declare parse_tpv.simps [simp del]

lemma parse_sky_exn: "fst (parse_sky p self) = Some e \<Longrightarrow> e \<in> {KeyError, TypeError}"
  by (auto simp: parse_sky_def Let_def dest: py_in_exn py_getitem_exn py_len_exn used_entries_exn
      split: sum.splits bool.splits)

lemma parse_sky_frame:
  "mode (snd (parse_sky p self)) = mode self"
  "error (snd (parse_sky p self)) = error self"
  by (auto simp: parse_sky_def Let_def split: sum.splits bool.splits)

lemma parse_att_frame:
  "mode (snd (parse_att p self)) = mode self"
  "error (snd (parse_att p self)) = error self"
  "sats (snd (parse_att p self)) = sats self"
  "sats_valid (snd (parse_att p self)) = sats_valid self"
  by (auto simp: parse_att_def Let_def split: sum.splits bool.splits)

lemma used_list_flagged:
  "list_all carries_used xs \<Longrightarrow> used_list xs = Inr (filter flagged_used xs)"
  by (induction xs) (auto simp: carries_used_def flagged_used_def split: sum.splits)

section \<open>Fix quality and staleness\<close>

text \<open>
  C1 (as amended). A mode-3 report followed by a mode-1 report: the \<^verbatim>\<open>alt\<close> attribute
  still holds the altitude of the mode-3 report, which \<^verbatim>\<open>altitude()\<close> returned before
  the drop, but \<^verbatim>\<open>altitude()\<close> and \<^verbatim>\<open>movement()\<close> both raise \<^verbatim>\<open>NoFixError\<close> now.
\<close>

theorem stale_alt_after_quality_drop:
  assumes "fmlookup d3 ''mode'' = Some m3" and "num_of m3 = Some 3"
    and "fmlookup d1 ''mode'' = Some m1" and "num_of m1 = Some 1"
    and "s3 = snd (parse_tpv (PDict d3) self)"
    and "s1 = snd (parse_tpv (PDict d1) s3)"
  shows "altitude s3 = Inr (get_or d3 ''alt'' (PFloat 0)) \<and>
         alt s1 = get_or d3 ''alt'' (PFloat 0) \<and>
         altitude s1 = Inl NoFixError \<and> movement s1 = Inl NoFixError"
proof -
  have three: "(3::real) \<le> 3" by simp
  have m3: "mode s3 = m3" and a3: "alt s3 = get_or d3 ''alt'' (PFloat 0)"
    using assms(1,5) parse_tpv_mode parse_tpv_3d(2)[OF assms(1,2) three] by simp_all
  have s1: "s1 = s3\<lparr>mode := m1\<rparr>"
    using parse_tpv_below_2d[OF assms(3,4), of s3] assms(6) by simp
  have "altitude s3 = Inr (get_or d3 ''alt'' (PFloat 0))"
    using m3 a3 assms(2) by (simp add: altitude_def needs_fix_def py_lt_int_num)
  moreover have "alt s1 = get_or d3 ''alt'' (PFloat 0)"
    using s1 a3 by simp
  moreover have "altitude s1 = Inl NoFixError" "movement s1 = Inl NoFixError"
    using s1 assms(4) by (simp_all add: altitude_def movement_def needs_fix_def py_lt_int_num)
  ultimately show ?thesis by simp
qed

theorem stale_alt_after_quality_drop_witness:
  "altitude (snd (parse_tpv (PDict tpv_3d) init)) = Inr (PFloat 100) \<and>
   alt (snd (parse_tpv (PDict tpv_no_fix) (snd (parse_tpv (PDict tpv_3d) init)))) = PFloat 100 \<and>
   altitude (snd (parse_tpv (PDict tpv_no_fix) (snd (parse_tpv (PDict tpv_3d) init))))
     = Inl NoFixError \<and>
   movement (snd (parse_tpv (PDict tpv_no_fix) (snd (parse_tpv (PDict tpv_3d) init))))
     = Inl NoFixError"
proof -
  have 1: "fmlookup tpv_3d ''mode'' = Some (PInt 3)" by (simp add: tpv_3d_def)
  have 2: "num_of (PInt 3) = Some 3" by simp
  have 3: "fmlookup tpv_no_fix ''mode'' = Some (PInt 1)" by (simp add: tpv_no_fix_def)
  have 4: "num_of (PInt 1) = Some 1" by simp
  have 5: "get_or tpv_3d ''alt'' (PFloat 0) = PFloat 100" by (simp add: tpv_3d_def get_or_def)
  show ?thesis
    using stale_alt_after_quality_drop [OF 1 2 3 4 refl refl, of init] by (simp only: 5)
qed

theorem altitude_after_quality_drop_counterexample:
  "alt (snd (parse_tpv (PDict tpv_no_fix) (snd (parse_tpv (PDict tpv_3d) init)))) = PFloat 100 \<and>
   altitude (snd (parse_tpv (PDict tpv_no_fix) (snd (parse_tpv (PDict tpv_3d) init))))
     \<noteq> Inr (PFloat 100)"
  by (simp add: parse_tpv.simps tpv_3d_def tpv_no_fix_def init_def py_ge_int_def
      altitude_def needs_fix_def py_lt_int_def get_or_def)

section \<open>Error margins\<close>

text \<open>
  C2 (as amended). A position/velocity report changes the error margins only when its
  mode is at least 2D. A report of at least 2D quality sets the margins \<^verbatim>\<open>s\<close>, \<^verbatim>\<open>t\<close>,
  \<^verbatim>\<open>x\<close> and \<^verbatim>\<open>y\<close> from its \<^verbatim>\<open>eps\<close>, \<^verbatim>\<open>ept\<close>, \<^verbatim>\<open>epx\<close> and \<^verbatim>\<open>epy\<close> (0 when absent); it
  sets the climb and vertical margins \<^verbatim>\<open>c\<close> and \<^verbatim>\<open>v\<close> from \<^verbatim>\<open>epc\<close> and \<^verbatim>\<open>epv\<close> when it is
  of 3D quality and resets both to 0 when it is not.
\<close>

theorem error_margins_frame:
  "(error (snd (parse_tpv p self)) \<noteq> error self \<longrightarrow>
      (\<exists>d m. p = PDict d \<and> fmlookup d ''mode'' = Some m \<and> py_ge_int m 2 = Inr True)) \<and>
   (fmlookup d ''mode'' = Some m \<and> py_ge_int m 2 = Inr True \<longrightarrow>
      fmlookup (error (snd (parse_tpv (PDict d) self))) ''s'' = Some (get_or d ''eps'' (PInt 0)) \<and>
      fmlookup (error (snd (parse_tpv (PDict d) self))) ''t'' = Some (get_or d ''ept'' (PInt 0)) \<and>
      fmlookup (error (snd (parse_tpv (PDict d) self))) ''x'' = Some (get_or d ''epx'' (PInt 0)) \<and>
      fmlookup (error (snd (parse_tpv (PDict d) self))) ''y'' = Some (get_or d ''epy'' (PInt 0)) \<and>
      fmlookup (error (snd (parse_tpv (PDict d) self))) ''c'' =
        Some (if py_ge_int m 3 = Inr True then get_or d ''epc'' (PInt 0) else PInt 0) \<and>
      fmlookup (error (snd (parse_tpv (PDict d) self))) ''v'' =
        Some (if py_ge_int m 3 = Inr True then get_or d ''epv'' (PInt 0) else PInt 0))"
  using parse_tpv_error_changed [of p self] parse_tpv_margins_2d [of d m self]
  by blast

theorem error_margins_frame_witness:
  "error (snd (parse_tpv (PDict tpv_2d) (snd (parse_tpv (PDict tpv_3d) init))))
     \<noteq> error (snd (parse_tpv (PDict tpv_3d) init)) \<and>
   py_ge_int (PInt 2) 2 = Inr True \<and>
   fmlookup (error (snd (parse_tpv (PDict tpv_2d) (snd (parse_tpv (PDict tpv_3d) init))))) ''s''
     = Some (PInt 0) \<and>
   fmlookup (error (snd (parse_tpv (PDict tpv_2d) (snd (parse_tpv (PDict tpv_3d) init))))) ''c''
     = Some (PInt 0) \<and>
   fmlookup (error (snd (parse_tpv (PDict tpv_2d) (snd (parse_tpv (PDict tpv_3d) init))))) ''v''
     = Some (PInt 0)"
proof -
  let ?s3 = "snd (parse_tpv (PDict tpv_3d) init)"
  have m: "fmlookup tpv_2d ''mode'' = Some (PInt 2)" by (simp add: tpv_2d_def)
  have ge2: "py_ge_int (PInt 2) 2 = Inr True" and ge3: "py_ge_int (PInt 2) 3 \<noteq> Inr True"
    by (simp_all add: py_ge_int_def)
  have dflt: "get_or tpv_2d ''eps'' (PInt 0) = PInt 0"
    by (simp add: tpv_2d_def get_or_def)
  have old: "fmlookup (error ?s3) ''v'' = Some (PFloat 5)"
    by (simp add: parse_tpv.simps tpv_3d_def init_def py_ge_int_def get_or_def)
  have new: "fmlookup (error (snd (parse_tpv (PDict tpv_2d) ?s3))) ''s'' = Some (PInt 0)"
    "fmlookup (error (snd (parse_tpv (PDict tpv_2d) ?s3))) ''c'' = Some (PInt 0)"
    "fmlookup (error (snd (parse_tpv (PDict tpv_2d) ?s3))) ''v'' = Some (PInt 0)"
    using error_margins_frame [of "PDict tpv_2d" ?s3 tpv_2d "PInt 2"] m ge2 ge3 dflt
    by simp_all
  have "error (snd (parse_tpv (PDict tpv_2d) ?s3)) \<noteq> error ?s3"
    using old new(3) by auto
  then show ?thesis using ge2 new by simp
qed

theorem vertical_margin_reset_counterexample:
  "py_ge_int (PInt 2) 3 = Inr False \<and>
   fmlookup (error (snd (parse_tpv (PDict tpv_3d) init))) ''v'' = Some (PFloat 5) \<and>
   fmlookup (error (snd (parse_tpv (PDict tpv_2d) (snd (parse_tpv (PDict tpv_3d) init))))) ''v''
     = Some (PInt 0) \<and>
   fmlookup (error (snd (parse_tpv (PDict tpv_3d) init))) ''c'' = Some (PFloat (1 / 10)) \<and>
   fmlookup (error (snd (parse_tpv (PDict tpv_2d) (snd (parse_tpv (PDict tpv_3d) init))))) ''c''
     = Some (PInt 0)"
  by (simp add: parse_tpv.simps tpv_3d_def tpv_2d_def init_def py_ge_int_def get_or_def)

section \<open>Timestamps\<close>

lemma get_time_local_never_returns: "get_time strptime now_iso True self \<noteq> Inr v"
  by (auto simp: get_time_def split: option.splits sum.splits if_splits pyval.splits)

lemma get_time_utc:
  assumes "num_of (mode self) = Some q" and "2 \<le> q"
  shows "time self = PStr [] \<or> time self = PNone \<Longrightarrow>
           get_time strptime now_iso False self = Inr (NowIso now_iso)"
    and "time self = PStr s \<Longrightarrow> s \<noteq> [] \<Longrightarrow> strptime s = Some dt \<Longrightarrow>
           get_time strptime now_iso False self = Inr (Parsed dt)"
  using assms by (auto simp: get_time_def needs_fix_def py_lt_int_num)

text \<open>
  C3. With a 2D fix and no timestamp received, \<^verbatim>\<open>get_time()\<close> returns the wall-clock
  time, but \<^verbatim>\<open>get_time(local_time=True)\<close> raises \<^verbatim>\<open>AttributeError\<close>: the conversion is
  called on the module \<^verbatim>\<open>time\<close>.
\<close>

theorem get_time_local_time_raises:
  "get_time strptime now_iso False (snd (parse_tpv (PDict tpv_2d) init)) = Inr (NowIso now_iso) \<and>
   get_time strptime now_iso True (snd (parse_tpv (PDict tpv_2d) init)) = Inl AttributeError"
  by (simp add: parse_tpv.simps tpv_2d_def init_def py_ge_int_def get_or_def
      get_time_def needs_fix_def py_lt_int_def)

section \<open>Poll bundles\<close>

lemma parse_poll_raises_UserWarning:
  "fst (parse_poll (PDict d) self) = Some UserWarning \<longleftrightarrow>
     (\<exists>a. fmlookup d ''active'' = Some a \<and> \<not> truthy a)"
  by (auto simp: parse_poll_def dest: py_last_exn parse_tpv_exn parse_sky_exn
       dest!: arg_cong[where f=fst]
       split: option.splits sum.splits prod.splits)

lemma parse_poll_UserWarning_unchanged:
  "fst (parse_poll p self) = Some UserWarning \<Longrightarrow> snd (parse_poll p self) = self"
  by (auto simp: parse_poll_def dest: py_last_exn parse_tpv_exn parse_sky_exn py_getitem_exn
       dest!: arg_cong[where f=fst]
       split: option.splits sum.splits prod.splits if_splits)

lemma parse_poll_active:
  assumes "fmlookup d ''active'' = Some a" and "truthy a"
    and "fmlookup d ''tpv'' = Some (PList ts)" and "ts \<noteq> []"
    and "fmlookup d ''sky'' = Some (PList ss)" and "ss \<noteq> []"
  shows "parse_poll (PDict d) self = and_then (parse_tpv (last ts) self) (parse_sky (last ss))"
  using assms by (simp add: parse_poll_def and_then_def split: prod.splits option.splits)

text \<open>
  C4. \<^verbatim>\<open>parse_poll\<close> raises \<^verbatim>\<open>UserWarning\<close> exactly when the bundle's \<^verbatim>\<open>active\<close> is
  false, and then the object is as it was; when \<^verbatim>\<open>active\<close> is true it does what
  \<^verbatim>\<open>parse_tpv\<close> on the last \<^verbatim>\<open>tpv\<close> entry followed by \<^verbatim>\<open>parse_sky\<close> on the last \<^verbatim>\<open>sky\<close>
  entry does.
\<close>

theorem parse_poll_contract:
  "(fst (parse_poll (PDict d) self) = Some UserWarning \<longleftrightarrow>
      (\<exists>a. fmlookup d ''active'' = Some a \<and> \<not> truthy a)) \<and>
   (fst (parse_poll (PDict d) self) = Some UserWarning \<longrightarrow>
      snd (parse_poll (PDict d) self) = self) \<and>
   (fmlookup d ''active'' = Some a \<and> truthy a \<and>
    fmlookup d ''tpv'' = Some (PList ts) \<and> ts \<noteq> [] \<and>
    fmlookup d ''sky'' = Some (PList ss) \<and> ss \<noteq> [] \<longrightarrow>
      parse_poll (PDict d) self = and_then (parse_tpv (last ts) self) (parse_sky (last ss)))"
  using parse_poll_raises_UserWarning [of d self]
    parse_poll_UserWarning_unchanged [of "PDict d" self]
    parse_poll_active [of d a ts ss self]
  by blast

theorem parse_poll_contract_witness:
  "parse_poll (PDict (poll_bundle (PBool False))) init = (Some UserWarning, init) \<and>
   truthy (PInt 1) \<and>
   parse_poll (PDict (poll_bundle (PInt 1))) init
     = and_then (parse_tpv (PDict tpv_3d) init) (parse_sky (PDict sky_8_5))"
proof -
  have inactive: "\<exists>a. fmlookup (poll_bundle (PBool False)) ''active'' = Some a \<and> \<not> truthy a"
    by (simp add: poll_bundle_def)
  have "fst (parse_poll (PDict (poll_bundle (PBool False))) init) = Some UserWarning \<and>
        snd (parse_poll (PDict (poll_bundle (PBool False))) init) = init"
    using parse_poll_contract [of "poll_bundle (PBool False)" init] inactive by blast
  then have 1: "parse_poll (PDict (poll_bundle (PBool False))) init = (Some UserWarning, init)"
    by (simp add: prod_eq_iff)
  have active:
    "fmlookup (poll_bundle (PInt 1)) ''active'' = Some (PInt 1)"
    "fmlookup (poll_bundle (PInt 1)) ''tpv'' = Some (PList [PDict tpv_no_fix, PDict tpv_3d])"
    "fmlookup (poll_bundle (PInt 1)) ''sky'' = Some (PList [PDict sky_empty, PDict sky_8_5])"
    by (simp_all add: poll_bundle_def)
  have 2: "parse_poll (PDict (poll_bundle (PInt 1))) init
     = and_then (parse_tpv (PDict tpv_3d) init) (parse_sky (PDict sky_8_5))"
    using parse_poll_contract [of "poll_bundle (PInt 1)" init "PInt 1"
        "[PDict tpv_no_fix, PDict tpv_3d]" "[PDict sky_empty, PDict sky_8_5]"] active
    by simp
  show ?thesis using 1 2 by simp
qed

section \<open>Vertical speed\<close>

lemma speed_vertical_numbers:
  assumes "num_of (mode s) = Some q" and "2 \<le> q" and "num_of (climb s) = Some c"
    and "fmlookup (error s) ''c'' = Some e" and "num_of e = Some ev"
  shows "speed_vertical s = Inr (if \<bar>c\<bar> < ev then PInt 0 else climb s)"
proof -
  obtain a where a: "py_abs (climb s) = Inr a" "num_of a = Some \<bar>c\<bar>"
    using py_abs_num[OF assms(3)] by blast
  have "py_lt a e = Inr (\<bar>c\<bar> < ev)"
    using a(2) assms(5) by (rule py_lt_num)
  then show ?thesis
    using assms a by (simp add: speed_vertical_def needs_fix_def py_lt_int_num)
qed

lemma speed_vertical_after_3d:
  assumes "fmlookup d ''mode'' = Some m" and "num_of m = Some r" and "3 \<le> r"
    and "fmlookup d ''climb'' = Some (PFloat c)" and "fmlookup d ''epc'' = Some (PFloat ev)"
  shows "speed_vertical (snd (parse_tpv (PDict d) self))
           = Inr (if \<bar>c\<bar> < ev then PInt 0 else PFloat c)"
proof -
  let ?s = "snd (parse_tpv (PDict d) self)"
  have f: "mode ?s = m" "climb ?s = PFloat c" "fmlookup (error ?s) ''c'' = Some (PFloat ev)"
    using parse_tpv_mode[OF assms(1), of self] parse_tpv_3d(3,4)[OF assms(1,2,3), of self]
      assms(4,5)
    by (simp_all add: get_or_def)
  have "speed_vertical ?s = Inr (if \<bar>c\<bar> < ev then PInt 0 else climb ?s)"
    by (rule speed_vertical_numbers[where q = r and e = "PFloat ev"])
       (use assms f in simp_all)
  then show ?thesis using f by simp
qed

text \<open>
  C5. After a 3D report with \<^verbatim>\<open>climb = 0.05\<close> and \<^verbatim>\<open>epc = 0.1\<close>, \<^verbatim>\<open>speed_vertical()\<close>
  returns 0; with \<^verbatim>\<open>climb = 0.5\<close> it returns 0.5. In any state of at least 2D quality
  it returns 0 when \<open>\<bar>climb\<bar>\<close> is below the climb margin and \<^verbatim>\<open>climb\<close> otherwise.
\<close>

theorem speed_vertical_clamp:
  "(fmlookup d ''mode'' = Some m \<and> num_of m = Some r \<and> 3 \<le> r \<and>
    fmlookup d ''epc'' = Some (PFloat (1 / 10)) \<longrightarrow>
      (fmlookup d ''climb'' = Some (PFloat (5 / 100)) \<longrightarrow>
         speed_vertical (snd (parse_tpv (PDict d) self)) = Inr (PInt 0)) \<and>
      (fmlookup d ''climb'' = Some (PFloat (5 / 10)) \<longrightarrow>
         speed_vertical (snd (parse_tpv (PDict d) self)) = Inr (PFloat (5 / 10)))) \<and>
   (num_of (mode s) = Some q \<and> 2 \<le> q \<and> num_of (climb s) = Some c \<and>
    fmlookup (error s) ''c'' = Some e \<and> num_of e = Some ev \<longrightarrow>
      speed_vertical s = Inr (if \<bar>c\<bar> < ev then PInt 0 else climb s))"
proof -
  have "speed_vertical (snd (parse_tpv (PDict d) self)) = Inr (PInt 0)"
    if "fmlookup d ''mode'' = Some m" "num_of m = Some r" "3 \<le> r"
      "fmlookup d ''epc'' = Some (PFloat (1 / 10))" "fmlookup d ''climb'' = Some (PFloat (5 / 100))"
    using speed_vertical_after_3d [OF that(1,2,3,5,4), of self] by simp
  moreover have "speed_vertical (snd (parse_tpv (PDict d) self)) = Inr (PFloat (5 / 10))"
    if "fmlookup d ''mode'' = Some m" "num_of m = Some r" "3 \<le> r"
      "fmlookup d ''epc'' = Some (PFloat (1 / 10))" "fmlookup d ''climb'' = Some (PFloat (5 / 10))"
    using speed_vertical_after_3d [OF that(1,2,3,5,4), of self] by simp
  moreover have "speed_vertical s = Inr (if \<bar>c\<bar> < ev then PInt 0 else climb s)"
    if "num_of (mode s) = Some q" "2 \<le> q" "num_of (climb s) = Some c"
      "fmlookup (error s) ''c'' = Some e" "num_of e = Some ev"
    using that by (rule speed_vertical_numbers)
  ultimately show ?thesis by blast
qed

theorem speed_vertical_clamp_witness:
  "speed_vertical (snd (parse_tpv (PDict tpv_3d) init)) = Inr (PInt 0) \<and>
   speed_vertical (snd (parse_tpv (PDict tpv_3d_climbing) init)) = Inr (PFloat (5 / 10)) \<and>
   speed_vertical (init\<lparr>mode := PInt 2, climb := PFloat (- 3), error := fmupd ''c'' (PInt 1) fmempty\<rparr>)
     = Inr (PFloat (- 3))"
proof -
  have a: "fmlookup tpv_3d ''mode'' = Some (PInt 3)"
    "fmlookup tpv_3d ''epc'' = Some (PFloat (1 / 10))"
    "fmlookup tpv_3d ''climb'' = Some (PFloat (5 / 100))"
    by (simp_all add: tpv_3d_def)
  have b: "fmlookup tpv_3d_climbing ''mode'' = Some (PInt 3)"
    "fmlookup tpv_3d_climbing ''epc'' = Some (PFloat (1 / 10))"
    "fmlookup tpv_3d_climbing ''climb'' = Some (PFloat (5 / 10))"
    by (simp_all add: tpv_3d_climbing_def)
  have n: "num_of (PInt 3) = Some 3" "(3::real) \<le> 3" by simp_all
  let ?s = "init\<lparr>mode := PInt 2, climb := PFloat (- 3), error := fmupd ''c'' (PInt 1) fmempty\<rparr>"
  have c: "num_of (mode ?s) = Some 2" "(2::real) \<le> 2" "num_of (climb ?s) = Some (- 3)"
    "fmlookup (error ?s) ''c'' = Some (PInt 1)" "num_of (PInt 1) = Some 1"
    by simp_all
  have 1: "speed_vertical (snd (parse_tpv (PDict tpv_3d) init)) = Inr (PInt 0)"
    using speed_vertical_clamp [of tpv_3d "PInt 3" 3 init] a n by blast
  have 2: "speed_vertical (snd (parse_tpv (PDict tpv_3d_climbing) init)) = Inr (PFloat (5 / 10))"
    using speed_vertical_clamp [of tpv_3d_climbing "PInt 3" 3 init] b n by blast
  have "speed_vertical ?s = Inr (if \<bar>- 3 :: real\<bar> < 1 then PInt 0 else climb ?s)"
    using speed_vertical_clamp [of _ _ _ _ ?s 2 "- 3" "PInt 1" 1] c by blast
  then have 3: "speed_vertical ?s = Inr (PFloat (- 3))" by simp
  show ?thesis using 1 2 3 by blast
qed

section \<open>Satellite counters\<close>

lemma parse_sky_list:
  assumes "fmlookup d ''satellites'' = Some (PList xs)" and "list_all carries_used xs"
  shows "parse_sky (PDict d) self =
     (None, self\<lparr>sats := int (length xs), sats_valid := int (length (filter flagged_used xs))\<rparr>)"
  using assms by (simp add: parse_sky_def used_list_flagged)

lemma parse_sky_no_list:
  assumes "fmlookup d ''satellites'' = None"
  shows "parse_sky (PDict d) self = (None, self\<lparr>sats := 0, sats_valid := 0\<rparr>)"
  using assms by (simp add: parse_sky_def)

text \<open>
  C6 (as amended). A satellite-visibility report with a satellite list whose entries all
  carry the \<^verbatim>\<open>used\<close> flag sets \<^verbatim>\<open>sats\<close> to the length of the list and \<^verbatim>\<open>sats_valid\<close> to
  the number of entries flagged used; one with no \<^verbatim>\<open>satellites\<close> field sets both to 0;
  no other attribute changes.
\<close>

theorem parse_sky_counts:
  "(fmlookup d ''satellites'' = Some (PList xs) \<and> list_all carries_used xs \<longrightarrow>
      parse_sky (PDict d) self =
        (None, self\<lparr>sats := int (length xs),
                      sats_valid := int (length (filter flagged_used xs))\<rparr>)) \<and>
   (fmlookup d ''satellites'' = None \<longrightarrow>
      parse_sky (PDict d) self = (None, self\<lparr>sats := 0, sats_valid := 0\<rparr>))"
  using parse_sky_list [of d xs self] parse_sky_no_list [of d self] by blast

lemma sky_8_5_satellites:
  "fmlookup sky_8_5 ''satellites'' = Some (PList
     [sat 1 True, sat 2 False, sat 3 True, sat 4 True,
      sat 5 False, sat 6 True, sat 7 False, sat 8 True])"
  by (simp add: sky_8_5_def)

lemma sat_flags: "carries_used (sat n u)" "flagged_used (sat n u) = u"
  by (simp_all add: sat_def carries_used_def flagged_used_def py_eq_True_def)

theorem parse_sky_counts_witness:
  "parse_sky (PDict sky_8_5) init = (None, init\<lparr>sats := 8, sats_valid := 5\<rparr>) \<and>
   parse_sky (PDict sky_empty) (init\<lparr>sats := 8, sats_valid := 5\<rparr>)
     = (None, init\<lparr>sats := 0, sats_valid := 0\<rparr>)"
proof -
  have "parse_sky (PDict sky_8_5) init = (None, init\<lparr>sats := 8, sats_valid := 5\<rparr>)"
    using parse_sky_counts [of sky_8_5 _ init, THEN conjunct1, rule_format,
        OF conjI, OF sky_8_5_satellites]
    by (simp add: sat_flags)
  moreover have "fmlookup sky_empty ''satellites'' = None"
    by (simp add: sky_empty_def)
  then have "parse_sky (PDict sky_empty) (init\<lparr>sats := 8, sats_valid := 5\<rparr>)
     = (None, init\<lparr>sats := 0, sats_valid := 0\<rparr>)"
    using parse_sky_counts [of sky_empty _ "init\<lparr>sats := 8, sats_valid := 5\<rparr>"] by simp
  ultimately show ?thesis by simp
qed

theorem unflagged_satellite_counterexample:
  "fmlookup sky_unflagged ''satellites'' = Some (PList [PDict (fmap_of_list [(''PRN'', PInt 1)])]) \<and>
   parse_sky (PDict sky_unflagged) (init\<lparr>sats := 8, sats_valid := 5\<rparr>)
     = (Some KeyError, init\<lparr>sats := 1, sats_valid := 5\<rparr>)"
  by (simp add: parse_sky_def sky_unflagged_def)

section \<open>Unknown report kinds\<close>

text \<open>
  C7 (as amended). A report that is a dict with a \<^verbatim>\<open>class\<close> field whose value is none
  of \<^verbatim>\<open>POLL\<close>, \<^verbatim>\<open>TPV\<close>, \<^verbatim>\<open>SKY\<close>, \<^verbatim>\<open>ATT\<close> is ignored, whatever else it holds:
  \<^verbatim>\<open>parse_packet\<close> returns normally and the object is as it was. A report with no
  \<^verbatim>\<open>class\<close> field, or one that is not a dict, makes \<^verbatim>\<open>packet['class']\<close> raise.
\<close>

theorem unknown_class_ignored:
  assumes "py_getitem packet ''class'' = Inr c"
    and "c \<notin> {PStr ''POLL'', PStr ''TPV'', PStr ''SKY'', PStr ''ATT''}"
  shows "parse_packet packet self = (None, self)"
  using assms by (simp add: parse_packet_def)

theorem unknown_class_ignored_witness:
  "parse_packet (PDict log_report) (snd (parse_tpv (PDict tpv_3d) init))
     = (None, snd (parse_tpv (PDict tpv_3d) init))"
proof -
  have 1: "py_getitem (PDict log_report) ''class'' = Inr (PStr ''VERSION'')"
    by (simp add: log_report_def)
  have 2: "PStr ''VERSION'' \<notin> {PStr ''POLL'', PStr ''TPV'', PStr ''SKY'', PStr ''ATT''}"
    by simp
  show ?thesis by (rule unknown_class_ignored [OF 1 2])
qed

theorem malformed_report_raises_counterexample:
  "fmlookup classless_report ''class'' = None \<and>
   parse_packet (PDict classless_report) init = (Some KeyError, init) \<and>
   parse_packet (PList [PStr ''TPV'']) init = (Some TypeError, init)"
  by (simp add: parse_packet_def classless_report_def)

section \<open>Invariants of ingestion\<close>

lemma parse_poll_result:
  "snd (parse_poll p self) = self \<or>
   (\<exists>t. snd (parse_poll p self) = snd (parse_tpv t self)) \<or>
   (\<exists>t skys k. py_getitem p ''sky'' = Inr skys \<and> py_last skys = Inr k \<and>
      snd (parse_poll p self) = snd (parse_sky k (snd (parse_tpv t self))))"
proof (cases "py_getitem p ''active''")
  case (Inl e)
  then show ?thesis by (simp add: parse_poll_def)
next
  case active: (Inr a)
  show ?thesis
  proof (cases "truthy a")
    case False
    with active show ?thesis by (simp add: parse_poll_def)
  next
    case True
    show ?thesis
    proof (cases "py_getitem p ''tpv''")
      case (Inl e)
      with active True show ?thesis by (simp add: parse_poll_def)
    next
      case tpvs: (Inr ts)
      show ?thesis
      proof (cases "py_last ts")
        case (Inl e)
        with active True tpvs show ?thesis by (simp add: parse_poll_def)
      next
        case t: (Inr t)
        obtain r s1 where r: "parse_tpv t self = (r, s1)" by (cases "parse_tpv t self")
        then have s1: "s1 = snd (parse_tpv t self)" by simp
        show ?thesis
        proof (cases r)
          case (Some e)
          with active True tpvs t r have "snd (parse_poll p self) = s1"
            by (simp add: parse_poll_def)
          with s1 show ?thesis by blast
        next
          case None
          show ?thesis
          proof (cases "py_getitem p ''sky''")
            case (Inl e)
            with active True tpvs t r None have "snd (parse_poll p self) = s1"
              by (simp add: parse_poll_def)
            with s1 show ?thesis by blast
          next
            case skys: (Inr ss)
            show ?thesis
            proof (cases "py_last ss")
              case (Inl e)
              with active True tpvs t r None skys have "snd (parse_poll p self) = s1"
                by (simp add: parse_poll_def)
              with s1 show ?thesis by blast
            next
              case k: (Inr k)
              with active True tpvs t r None skys
              have "snd (parse_poll p self) = snd (parse_sky k s1)"
                by (simp add: parse_poll_def)
              with s1 skys k show ?thesis by blast
            qed
          qed
        qed
      qed
    qed
  qed
qed

lemma parse_packet_result:
  "snd (parse_packet p self) = self \<or>
   (py_getitem p ''class'' = Inr (PStr ''POLL'') \<and> snd (parse_packet p self) = snd (parse_poll p self)) \<or>
   (py_getitem p ''class'' = Inr (PStr ''TPV'') \<and> snd (parse_packet p self) = snd (parse_tpv p self)) \<or>
   (py_getitem p ''class'' = Inr (PStr ''SKY'') \<and> snd (parse_packet p self) = snd (parse_sky p self)) \<or>
   (py_getitem p ''class'' = Inr (PStr ''ATT'') \<and> snd (parse_packet p self) = snd (parse_att p self))"
  by (auto simp: parse_packet_def split: sum.splits)

lemma margins_inv_tpv: "margins_inv self \<Longrightarrow> margins_inv (snd (parse_tpv p self))"
  unfolding margins_inv_def by (rule parse_tpv_has_margins)

lemma margins_inv_sky: "margins_inv self \<Longrightarrow> margins_inv (snd (parse_sky p self))"
  by (simp add: margins_inv_def has_margins_def parse_sky_frame)

lemma margins_inv_att: "margins_inv self \<Longrightarrow> margins_inv (snd (parse_att p self))"
  by (simp add: margins_inv_def has_margins_def parse_att_frame)

lemma margins_inv_poll: "margins_inv self \<Longrightarrow> margins_inv (snd (parse_poll p self))"
  using parse_poll_result [of p self] margins_inv_tpv margins_inv_sky by metis

lemma margins_inv_packet: "margins_inv self \<Longrightarrow> margins_inv (snd (parse_packet p self))"
  using parse_packet_result [of p self]
    margins_inv_tpv margins_inv_sky margins_inv_att margins_inv_poll by metis

lemma margins_inv_ingest: "margins_inv self \<Longrightarrow> margins_inv (ingest ps self)"
  by (induction ps arbitrary: self) (simp_all add: margins_inv_packet)

lemma margins_inv_init: "margins_inv init"
  by (simp add: margins_inv_def init_def py_ge_int_def)

lemma needs_fix_2: "needs_fix 2 self = None \<Longrightarrow> py_ge_int (mode self) 2 = Inr True"
  by (auto simp: needs_fix_def py_ge_lt_int split: sum.splits if_splits)

lemma no_KeyError:
  assumes "margins_inv self"
  shows "speed self \<noteq> Inl KeyError" and "speed_vertical self \<noteq> Inl KeyError"
    and "position_precision self \<noteq> Inl KeyError"
proof -
  have nf: "needs_fix 2 self \<noteq> Some KeyError"
    by (auto simp: needs_fix_def py_lt_int_def split: option.splits sum.splits)
  have keys: "fmlookup (error self) ''c'' \<noteq> None" "fmlookup (error self) ''s'' \<noteq> None"
    "fmlookup (error self) ''v'' \<noteq> None" "fmlookup (error self) ''x'' \<noteq> None"
    "fmlookup (error self) ''y'' \<noteq> None"
    if "needs_fix 2 self = None"
    using assms needs_fix_2[OF that] by (simp_all add: margins_inv_def has_margins_def)
  show "speed self \<noteq> Inl KeyError"
  proof (cases "needs_fix 2 self")
    case None
    then show ?thesis using keys(2)[OF None]
      by (auto simp: speed_def dest: py_lt_exn split: sum.splits)
  next
    case (Some e)
    then show ?thesis using nf by (simp add: speed_def)
  qed
  show "speed_vertical self \<noteq> Inl KeyError"
  proof (cases "needs_fix 2 self")
    case None
    then show ?thesis using keys(1)[OF None]
      by (auto simp: speed_vertical_def dest: py_lt_exn py_abs_exn split: sum.splits)
  next
    case (Some e)
    then show ?thesis using nf by (simp add: speed_vertical_def)
  qed
  show "position_precision self \<noteq> Inl KeyError"
  proof (cases "needs_fix 2 self")
    case None
    then show ?thesis using keys(3,4,5)[OF None]
      by (auto simp: position_precision_def dest: py_max_exn split: sum.splits)
  next
    case (Some e)
    then show ?thesis using nf by (simp add: position_precision_def)
  qed
qed

text \<open>
  C9. The margins are empty at first. After any sequence of reports, a mode of at least
  2D comes with all six error margins, so that \<^verbatim>\<open>speed()\<close>, \<^verbatim>\<open>speed_vertical()\<close> and
  \<^verbatim>\<open>position_precision()\<close> never raise \<^verbatim>\<open>KeyError\<close>.
\<close>

theorem margins_present_at_2d:
  "error init = fmempty \<and>
   (py_ge_int (mode (ingest ps init)) 2 = Inr True \<longrightarrow> has_margins (ingest ps init)) \<and>
   speed (ingest ps init) \<noteq> Inl KeyError \<and>
   speed_vertical (ingest ps init) \<noteq> Inl KeyError \<and>
   position_precision (ingest ps init) \<noteq> Inl KeyError"
proof -
  have inv: "margins_inv (ingest ps init)"
    using margins_inv_init by (rule margins_inv_ingest)
  have "error init = fmempty" by (simp add: init_def)
  moreover have "py_ge_int (mode (ingest ps init)) 2 = Inr True \<longrightarrow> has_margins (ingest ps init)"
    using inv by (simp add: margins_inv_def)
  ultimately show ?thesis using no_KeyError[OF inv] by simp
qed

theorem margins_present_at_2d_witness:
  "py_ge_int (mode (ingest [PDict sky_8_5, PDict tpv_2d] init)) 2 = Inr True \<and>
   has_margins (ingest [PDict sky_8_5, PDict tpv_2d] init) \<and>
   speed (ingest [PDict sky_8_5, PDict tpv_2d] init) = Inr (PInt 0)"
proof -
  have c: "fmlookup tpv_2d ''class'' = Some (PStr ''TPV'')" "fmlookup tpv_2d ''mode'' = Some (PInt 2)"
    "fmlookup sky_8_5 ''class'' = Some (PStr ''SKY'')"
    by (simp_all add: tpv_2d_def sky_8_5_def)
  have m: "mode (ingest [PDict sky_8_5, PDict tpv_2d] init) = PInt 2"
    using c by (simp add: parse_packet_def parse_tpv_mode)
  then have ge: "py_ge_int (mode (ingest [PDict sky_8_5, PDict tpv_2d] init)) 2 = Inr True"
    by (simp add: py_ge_int_def)
  then have "has_margins (ingest [PDict sky_8_5, PDict tpv_2d] init)"
    using margins_present_at_2d [of "[PDict sky_8_5, PDict tpv_2d]"] by blast
  moreover have "speed (ingest [PDict sky_8_5, PDict tpv_2d] init) = Inr (PInt 0)"
    using c
    by (simp add: parse_packet_def parse_sky_def parse_tpv.simps tpv_2d_def init_def
        py_ge_int_def py_lt_int_def get_or_def speed_def needs_fix_def)
  ultimately show ?thesis using ge by simp
qed

subsection \<open>Used never exceeds visible\<close>

lemma length_used_entries:
  assumes "entries_flagged x" and "py_len x = Inr n" and "used_entries x = Inr us"
  shows "int (length us) \<le> n"
proof (cases x)
  case (PList xs)
  with assms have "us = filter flagged_used xs" "n = int (length xs)"
    by (simp_all add: used_list_flagged)
  then show ?thesis by simp
qed (use assms in \<open>auto split: if_splits\<close>)

lemma used_entries_flagged:
  assumes "entries_flagged x" and "py_len x = Inr n"
  shows "\<exists>us. used_entries x = Inr us"
  using assms by (cases x) (auto simp: used_list_flagged)

lemma counters_sky:
  assumes "sky_flagged p" and "sats_valid self \<le> sats self"
  shows "sats_valid (snd (parse_sky p self)) \<le> sats (snd (parse_sky p self))"
proof (cases "py_in ''satellites'' p")
  case (Inl e)
  with assms(2) show ?thesis by (simp add: parse_sky_def)
next
  case has: (Inr b)
  show ?thesis
  proof (cases b)
    case False
    with has show ?thesis by (simp add: parse_sky_def)
  next
    case True
    show ?thesis
    proof (cases "py_getitem p ''satellites''")
      case (Inl e)
      with has True assms(2) show ?thesis by (simp add: parse_sky_def)
    next
      case item: (Inr x)
      with assms(1) have fl: "entries_flagged x" by (simp add: sky_flagged_def)
      show ?thesis
      proof (cases "py_len x")
        case (Inl e)
        with has True item assms(2) show ?thesis by (simp add: parse_sky_def)
      next
        case len: (Inr n)
        obtain us where us: "used_entries x = Inr us"
          using used_entries_flagged[OF fl len] by blast
        have "int (length us) \<le> n" using fl len us by (rule length_used_entries)
        with has True item len us show ?thesis by (simp add: parse_sky_def)
      qed
    qed
  qed
qed

lemma sky_flagged_last:
  assumes "py_last skys = Inr k" and "\<And>xs. skys = PList xs \<Longrightarrow> list_all sky_flagged xs"
  shows "sky_flagged k"
proof (cases skys)
  case (PList xs)
  with assms(1) have "xs \<noteq> []" "k = last xs" by (auto split: if_splits)
  moreover have "list_all sky_flagged xs" using assms(2) PList by simp
  ultimately show ?thesis by (simp add: list_all_iff)
next
  case (PStr s)
  with assms(1) show ?thesis by (auto simp: sky_flagged_def split: if_splits)
qed (use assms(1) in auto)

lemma counters_packet:
  assumes "report_flagged p" and "sats_valid self \<le> sats self"
  shows "sats_valid (snd (parse_packet p self)) \<le> sats (snd (parse_packet p self))"
proof -
  consider (same) "snd (parse_packet p self) = self"
    | (poll) "py_getitem p ''class'' = Inr (PStr ''POLL'')"
        "snd (parse_packet p self) = snd (parse_poll p self)"
    | (tpv) "snd (parse_packet p self) = snd (parse_tpv p self)"
    | (sky) "py_getitem p ''class'' = Inr (PStr ''SKY'')"
        "snd (parse_packet p self) = snd (parse_sky p self)"
    | (att) "snd (parse_packet p self) = snd (parse_att p self)"
    using parse_packet_result [of p self] by blast
  then show ?thesis
  proof cases
    case same
    with assms(2) show ?thesis by simp
  next
    case tpv
    with assms(2) show ?thesis by (simp add: parse_tpv_counters)
  next
    case att
    with assms(2) show ?thesis by (simp add: parse_att_frame)
  next
    case sky
    with assms(1) have "sky_flagged p" by (simp add: report_flagged_def)
    then show ?thesis using assms(2) sky(2) by (simp add: counters_sky)
  next
    case poll
    consider (a) "snd (parse_poll p self) = self"
      | (b) t where "snd (parse_poll p self) = snd (parse_tpv t self)"
      | (c) t skys k where "py_getitem p ''sky'' = Inr skys" "py_last skys = Inr k"
          "snd (parse_poll p self) = snd (parse_sky k (snd (parse_tpv t self)))"
      using parse_poll_result [of p self] by blast
    then show ?thesis
    proof cases
      case a
      with assms(2) poll(2) show ?thesis by simp
    next
      case b
      with assms(2) poll(2) show ?thesis by (simp add: parse_tpv_counters)
    next
      case c
      have "list_all sky_flagged xs" if "skys = PList xs" for xs
        using assms(1) poll(1) c(1) that by (simp add: report_flagged_def)
      with c(2) have "sky_flagged k" by (rule sky_flagged_last)
      moreover have "sats_valid (snd (parse_tpv t self)) \<le> sats (snd (parse_tpv t self))"
        using assms(2) by (simp add: parse_tpv_counters)
      ultimately show ?thesis using c(3) poll(2) by (simp add: counters_sky)
    qed
  qed
qed

lemma counters_ingest:
  "list_all report_flagged ps \<Longrightarrow> sats_valid self \<le> sats self \<Longrightarrow>
     sats_valid (ingest ps self) \<le> sats (ingest ps self)"
  by (induction ps arbitrary: self) (simp_all add: counters_packet)

text \<open>
  C10. Both counters start at 0, and after any sequence of reports whose satellite
  entries all carry the \<^verbatim>\<open>used\<close> flag, \<^verbatim>\<open>sats_valid\<close> is at most \<^verbatim>\<open>sats\<close>.
\<close>

theorem used_at_most_visible:
  assumes "list_all report_flagged ps"
  shows "sats init = 0 \<and> sats_valid init = 0 \<and>
         sats_valid (ingest ps init) \<le> sats (ingest ps init)"
proof -
  have "sats init = 0" "sats_valid init = 0" by (simp_all add: init_def)
  then show ?thesis using counters_ingest[OF assms, of init] by simp
qed

lemma sample_reports_flagged:
  "report_flagged (PDict sky_8_5)" "report_flagged (PDict (poll_bundle a))"
  "report_flagged (PDict tpv_no_fix)"
  by (simp_all add: report_flagged_def sky_flagged_def sky_8_5_def sky_empty_def
      poll_bundle_def tpv_no_fix_def sat_flags)

theorem used_at_most_visible_witness:
  "list_all report_flagged [PDict sky_8_5, PDict (poll_bundle (PInt 1)), PDict tpv_no_fix] \<and>
   sats_valid (ingest [PDict sky_8_5, PDict (poll_bundle (PInt 1)), PDict tpv_no_fix] init)
     \<le> sats (ingest [PDict sky_8_5, PDict (poll_bundle (PInt 1)), PDict tpv_no_fix] init)"
proof -
  have h: "list_all report_flagged
      [PDict sky_8_5, PDict (poll_bundle (PInt 1)), PDict tpv_no_fix]"
    by (simp add: sample_reports_flagged)
  show ?thesis using h used_at_most_visible [OF h] by blast
qed

text \<open>Without the flags the order of the two counters can break.\<close>

lemma unflagged_entry_breaks_order:
  "sats (ingest [PDict sky_8_5, PDict sky_unflagged] init) = 1 \<and>
   sats_valid (ingest [PDict sky_8_5, PDict sky_unflagged] init) = 5"
proof -
  have c: "py_getitem (PDict sky_8_5) ''class'' = Inr (PStr ''SKY'')"
    "py_getitem (PDict sky_unflagged) ''class'' = Inr (PStr ''SKY'')"
    by (simp_all add: sky_8_5_def sky_unflagged_def)
  have 1: "parse_sky (PDict sky_8_5) init = (None, init\<lparr>sats := 8, sats_valid := 5\<rparr>)"
    using parse_sky_list [OF sky_8_5_satellites, of init] by (simp add: sat_flags)
  have 2: "parse_sky (PDict sky_unflagged) (init\<lparr>sats := 8, sats_valid := 5\<rparr>)
     = (Some KeyError, init\<lparr>sats := 1, sats_valid := 5\<rparr>)"
    by (simp add: parse_sky_def sky_unflagged_def)
  show ?thesis using c 1 2 by (simp add: parse_packet_def)
qed

end
